theory Spec2Isabelle
  imports Complex_Main "HOL-Library.AList"
begin

section \<open>Batch upload of shared expenses (main.py, batch\_upload\_process)\<close>

text \<open>
  The development embeds the computation of \<^verbatim>\<open>batch_upload_process\<close>: the binding
  of member columns to the Members sheet, the share calculation \<^verbatim>\<open>getShareOwed\<close>, the
  rounding correction \<^verbatim>\<open>AssignRoundingDiff\<close> and the commit of the batch.

  Numbers. A cell of the sheet is modelled as an exact rational (the decimal the user typed);
  \<^verbatim>\<open>NaN\<close>, the value pandas gives an empty cell, is \<open>None\<close>. Binary floating point
  representation error is not modelled: arithmetic is exact and \<^verbatim>\<open>round(x, 2)\<close> rounds
  the exact value to two decimals, ties to the even neighbour.
\<close>

subsection \<open>Python values and errors\<close>

datatype py_error = KeyError | IndexError | ZeroDivisionError

text \<open>A row or a dict read by key: \<^verbatim>\<open>d[k]\<close> raises \<^verbatim>\<open>KeyError\<close> on a missing key.\<close>

definition getitem :: "(string \<times> 'a) list \<Rightarrow> string \<Rightarrow> py_error + 'a" where
  "getitem d k = (case map_of d k of None \<Rightarrow> Inl KeyError | Some v \<Rightarrow> Inr v)"

text \<open>\<^verbatim>\<open>d[k] = v\<close>: overwrites the entry of an existing key, appends a new one.\<close>

definition setitem :: "(string \<times> 'a) list \<Rightarrow> string \<Rightarrow> 'a \<Rightarrow> (string \<times> 'a) list" where
  "setitem d k v = AList.update k v d"

text \<open>\<^verbatim>\<open>round(x, 2)\<close>, on the exact value: to the nearest hundredth, ties to even.\<close>

definition round_half_even :: "rat \<Rightarrow> int" where
  "round_half_even x =
     (let f = \<lfloor>x\<rfloor>; d = x - of_int f
      in if d < 1 / 2 then f
         else if 1 / 2 < d then f + 1
         else if even f then f else f + 1)"

definition round2 :: "rat \<Rightarrow> rat" where
  "round2 x = of_int (round_half_even (x * 100)) / 100"

text \<open>
  \<^verbatim>\<open>random.choice(seq)\<close>: raises \<^verbatim>\<open>IndexError\<close> on an empty sequence, otherwise
  returns \<^verbatim>\<open>seq[i]\<close> for a random index \<open>i\<close> below the length. The generator's draw
  is the parameter \<open>rnd\<close>; every index is reached by some draw.
\<close>

definition random_choice :: "nat \<Rightarrow> 'a list \<Rightarrow> py_error + 'a" where
  "random_choice rnd xs = (if xs = [] then Inl IndexError else Inr (xs ! (rnd mod length xs)))"

subsection \<open>The two sheets\<close>

text \<open>A row of the Members sheet: columns \<^verbatim>\<open>Name\<close> and \<^verbatim>\<open>ID\<close>.\<close>

record member =
  name :: string
  ident :: int

text \<open>
  A row of the Expenses sheet, with the columns the computation adds to it.
  \<open>all_equal\<close> is the truth value of the normalised \<^verbatim>\<open>All equal\<close> cell, as the test
  \<^verbatim>\<open>elif row['All equal']\<close> reads it. \<open>cells\<close> holds the member columns (those whose
  header starts with an underscore) under their full header. \<open>payer_id\<close> is the column
  \<^verbatim>\<open>Payer ID\<close> the merge adds. \<open>share_paid\<close> and \<open>share_owed\<close> hold the columns
  \<^verbatim>\<open><name>_share_paid\<close> and \<^verbatim>\<open><name>_share_owed\<close>, under the member's name: the two
  suffixes have the same length and differ, so a paid column never is an owed column.
\<close>

record expense_row =
  row_id :: string
  description :: string
  date :: string
  amount :: rat
  currency :: string
  paid_by :: string
  all_equal :: bool
  split_type :: string
  cells :: "(string \<times> rat option) list"
  payer_id :: "int option"
  share_paid :: "(string \<times> rat) list"
  share_owed :: "(string \<times> rat) list"

text \<open>
  \<^verbatim>\<open>list(expenses_df.filter(regex='^_', axis=1))\<close>: the headers that start with an
  underscore. The member's name is the header without its first character,
  \<^verbatim>\<open>col_name[1:]\<close>, which is \<open>tl\<close>.
\<close>

definition member_col :: "string \<Rightarrow> bool" where
  "member_col h = (take 1 h = ''_'')"

definition cols_member_names :: "string list \<Rightarrow> string list" where
  "cols_member_names headers = filter member_col headers"

subsection \<open>Binding member columns to the Members sheet (lines 154 to 163)\<close>

text \<open>
  \<^verbatim>\<open>members_df[members_df['Name'] == member_name[1:]]\<close> keeps the rows of that name, and
  \<^verbatim>\<open>member_info['ID'].values[0]\<close> reads the first of them: \<^verbatim>\<open>IndexError\<close> when there
  is none.
\<close>

definition member_info :: "member list \<Rightarrow> string \<Rightarrow> member list" where
  "member_info members_df member_name = filter (\<lambda>m. name m = tl member_name) members_df"

fun members_in_cols :: "member list \<Rightarrow> string list \<Rightarrow> py_error + member list" where
  "members_in_cols members_df [] = Inr []"
| "members_in_cols members_df (member_name # rest) =
     (case member_info members_df member_name of
        [] \<Rightarrow> Inl IndexError
      | m # _ \<Rightarrow>
          (case members_in_cols members_df rest of
             Inl e \<Rightarrow> Inl e
           | Inr ms \<Rightarrow> Inr (\<lparr>name = tl member_name, ident = ident m\<rparr> # ms)))"

subsection \<open>The payer's identifier (lines 165 to 171)\<close>

text \<open>
  The left merge on \<^verbatim>\<open>Paid by\<close> = \<^verbatim>\<open>Name\<close> keeps the order of the expenses; an expense
  whose payer is no member keeps one row with an empty \<^verbatim>\<open>Payer ID\<close>, and an expense whose
  payer's name is on several rows of the Members sheet gets one row for each of them.
\<close>

definition merge_payer :: "member list \<Rightarrow> expense_row \<Rightarrow> expense_row list" where
  "merge_payer members_df row =
     (case filter (\<lambda>m. name m = paid_by row) members_df of
        [] \<Rightarrow> [row\<lparr>payer_id := None\<rparr>]
      | ms \<Rightarrow> map (\<lambda>m. row\<lparr>payer_id := Some (ident m)\<rparr>) ms)"

subsection \<open>The share a member owes (lines 174 to 189)\<close>

text \<open>
  \<^verbatim>\<open>[member['name'] for member in members_in_cols if not pd.isna(row[f"_{member['name']}"])]\<close>
\<close>

fun members_for_division :: "expense_row \<Rightarrow> member list \<Rightarrow> py_error + string list" where
  "members_for_division row [] = Inr []"
| "members_for_division row (m # ms) =
     (case getitem (cells row) (''_'' @ name m) of
        Inl e \<Rightarrow> Inl e
      | Inr v \<Rightarrow>
          (case members_for_division row ms of
             Inl e \<Rightarrow> Inl e
           | Inr r \<Rightarrow> Inr (if v = None then r else name m # r)))"

text \<open>
  \<open>group_size\<close> is \<^verbatim>\<open>len(group.members)\<close>, \<open>mic\<close> the list \<^verbatim>\<open>members_in_cols\<close> of the
  enclosing function. The parameter \<^verbatim>\<open>cols_member_names\<close> of the source is not read by
  the body and is left out. A division by zero is recorded as \<open>ZeroDivisionError\<close>.
\<close>

definition getShareOwed :: "nat \<Rightarrow> member list \<Rightarrow> expense_row \<Rightarrow> string \<Rightarrow> py_error + rat" where
  "getShareOwed group_size mic row member_name =
     (case getitem (cells row) member_name of
        Inl e \<Rightarrow> Inl e
      | Inr member_cell_value \<Rightarrow>
          (case member_cell_value of
             None \<Rightarrow> Inr 0
           | Some v \<Rightarrow>
               if all_equal row then
                 (if group_size = 0 then Inl ZeroDivisionError
                  else Inr (round2 (amount row / of_nat group_size)))
               else if split_type row = ''share'' then Inr (round2 (v / 100 * amount row))
               else if split_type row = ''amount'' then Inr v
               else if split_type row = ''equal'' then
                 (case members_for_division row mic of
                    Inl e \<Rightarrow> Inl e
                  | Inr ms \<Rightarrow>
                      if length ms = 0 then Inl ZeroDivisionError
                      else Inr (round2 (amount row / of_nat (length ms))))
               else Inr 0))"

subsection \<open>The share columns (lines 191 to 196)\<close>

text \<open>
  The source adds the two columns of one member to the whole frame before it turns to the
  next member; each value depends on its own row only, so the model adds the columns row by
  row. \<^verbatim>\<open>np.where(expenses_df["Paid by"] == col_name[1:], expenses_df['Amount'], 0)\<close> is
  the paid share.
\<close>

fun share_columns :: "nat \<Rightarrow> member list \<Rightarrow> string list \<Rightarrow> expense_row \<Rightarrow> py_error + expense_row" where
  "share_columns group_size mic [] row = Inr row"
| "share_columns group_size mic (col_name # rest) row =
     (case getShareOwed group_size mic row (''_'' @ tl col_name) of
        Inl e \<Rightarrow> Inl e
      | Inr owed \<Rightarrow>
          share_columns group_size mic rest
            (row\<lparr>share_paid := setitem (share_paid row) (tl col_name)
                                (if paid_by row = tl col_name then amount row else 0),
                 share_owed := setitem (share_owed row) (tl col_name) owed\<rparr>))"

text \<open>A function applied to every row of the frame; the first exception ends the request.\<close>

fun apply_rows :: "('a \<Rightarrow> py_error + 'b) \<Rightarrow> 'a list \<Rightarrow> py_error + 'b list" where
  "apply_rows f [] = Inr []"
| "apply_rows f (r # rs) =
     (case f r of
        Inl e \<Rightarrow> Inl e
      | Inr r' \<Rightarrow> (case apply_rows f rs of Inl e \<Rightarrow> Inl e | Inr rs' \<Rightarrow> Inr (r' # rs')))"

subsection \<open>The rounding correction (lines 199 to 212)\<close>

text \<open>
  \<^verbatim>\<open>[f"{col_name[1:]}_share_owed" for col_name in cols_member_names
     if row[f"{col_name[1:]}_share_owed"] > 0]\<close>
\<close>

fun share_owed_columns :: "string list \<Rightarrow> expense_row \<Rightarrow> py_error + string list" where
  "share_owed_columns [] row = Inr []"
| "share_owed_columns (col_name # rest) row =
     (case getitem (share_owed row) (tl col_name) of
        Inl e \<Rightarrow> Inl e
      | Inr v \<Rightarrow>
          (case share_owed_columns rest row of
             Inl e \<Rightarrow> Inl e
           | Inr cs \<Rightarrow> Inr (if 0 < v then tl col_name # cs else cs)))"

text \<open>\<^verbatim>\<open>row[share_owed_columns]\<close>: the values under a list of keys.\<close>

fun getitems :: "(string \<times> rat) list \<Rightarrow> string list \<Rightarrow> py_error + rat list" where
  "getitems d [] = Inr []"
| "getitems d (k # ks) =
     (case getitem d k of
        Inl e \<Rightarrow> Inl e
      | Inr v \<Rightarrow> (case getitems d ks of Inl e \<Rightarrow> Inl e | Inr vs \<Rightarrow> Inr (v # vs)))"

definition AssignRoundingDiff :: "nat \<Rightarrow> string list \<Rightarrow> expense_row \<Rightarrow> py_error + expense_row" where
  "AssignRoundingDiff rnd cols row =
     (case share_owed_columns cols row of
        Inl e \<Rightarrow> Inl e
      | Inr socs \<Rightarrow>
          (case getitems (share_owed row) socs of
             Inl e \<Rightarrow> Inl e
           | Inr vs \<Rightarrow>
               (let sum_share_owed = sum_list vs;
                    diff = sum_share_owed - amount row
                in if 0 < \<bar>diff\<bar> \<and> \<bar>diff\<bar> < 2 / 100 then
                     (let diff_round = round2 diff
                      in case random_choice rnd socs of
                           Inl e \<Rightarrow> Inl e
                         | Inr random_member \<Rightarrow>
                             (case getitem (share_owed row) random_member of
                                Inl e \<Rightarrow> Inl e
                              | Inr v \<Rightarrow>
                                  Inr (row\<lparr>share_owed :=
                                             setitem (share_owed row) random_member
                                               (v + - diff_round)\<rparr>)))
                   else Inr row)))"

text \<open>
  \<^verbatim>\<open>expenses_df.apply(AssignRoundingDiff, axis = 1)\<close>: \<open>rnd i\<close> is the draw of the
  generator at the row of position \<open>i\<close>.
\<close>

fun assign_rows :: "(nat \<Rightarrow> nat) \<Rightarrow> string list \<Rightarrow> expense_row list \<Rightarrow> py_error + expense_row list" where
  "assign_rows rnd cols [] = Inr []"
| "assign_rows rnd cols (r # rs) =
     (case AssignRoundingDiff (rnd 0) cols r of
        Inl e \<Rightarrow> Inl e
      | Inr r' \<Rightarrow>
          (case assign_rows (\<lambda>i. rnd (Suc i)) cols rs of
             Inl e \<Rightarrow> Inl e
           | Inr rs' \<Rightarrow> Inr (r' # rs')))"

subsection \<open>Validation and storage (lines 214 to 239)\<close>

text \<open>The group fetched from the ledger service: its identifier and its members' identifiers.\<close>

record sw_group =
  group_id :: int
  group_members :: "int list"

record upload =
  upload_id :: nat
  creator_user_id :: int
  upload_group_id :: int

record stored_expense =
  of_upload :: nat
  expense :: expense_row
  expense_members :: "member list"
  expense_creator :: int

record database =
  uploads :: "upload list"
  expenses :: "stored_expense list"

text \<open>
  Modelled from the spec: \<^verbatim>\<open>crud.create_upload\<close> and \<^verbatim>\<open>crud.create_expense\<close> (package
  \<^verbatim>\<open>db\<close>) are not among the sources. The spec has a persistence collaborator that
  stores one upload record and one expense record for each expense; the model appends the
  record to the table and numbers uploads from 1.
\<close>

definition create_upload :: "database \<Rightarrow> int \<Rightarrow> int \<Rightarrow> database \<times> upload" where
  "create_upload db creator gid =
     (let new_upload = \<lparr>upload_id = Suc (length (uploads db)), creator_user_id = creator,
                         upload_group_id = gid\<rparr>
      in (db\<lparr>uploads := uploads db @ [new_upload]\<rparr>, new_upload))"

definition create_expense :: "database \<Rightarrow> nat \<Rightarrow> expense_row \<Rightarrow> member list \<Rightarrow> int \<Rightarrow> database" where
  "create_expense db uid ex mic creator =
     db\<lparr>expenses := expenses db @
           [\<lparr>of_upload = uid, expense = ex, expense_members = mic, expense_creator = creator\<rparr>]\<rparr>"

text \<open>The template context: the entries computed here (request and group are passed on as they are).\<close>

record ('e, 'm) template_context =
  ctx_members_in_cols :: "member list"
  ctx_expenses :: "expense_row list"
  ctx_errors :: 'e
  ctx_error_messages :: 'm
  file_valid :: bool
  ctx_upload_id :: nat

text \<open>
  Lines 217 to 237, given the triple \<^verbatim>\<open>errors, error_messages, error_count\<close> that
  \<^verbatim>\<open>describe_errors\<close> returned.
\<close>

definition store_batch ::
  "'e \<times> 'm \<times> int \<Rightarrow> int \<Rightarrow> int \<Rightarrow> member list \<Rightarrow> database \<Rightarrow> expense_row list
     \<Rightarrow> ('e, 'm) template_context \<times> database" where
  "store_batch report current_user gid mic db exps =
     (case report of
        (errors, error_messages, error_count) \<Rightarrow>
          (let stored =
                 (if error_count = 0 then
                    (case create_upload db current_user gid of
                       (db1, new_upload) \<Rightarrow>
                         (foldl (\<lambda>d ex. create_expense d (upload_id new_upload) ex mic current_user)
                            db1 exps,
                          upload_id new_upload))
                  else (db, 0))
           in (\<lparr>ctx_members_in_cols = mic, ctx_expenses = exps, ctx_errors = errors,
                 ctx_error_messages = error_messages, file_valid = (error_count = 0),
                 ctx_upload_id = (if error_count = 0 then snd stored else 0)\<rparr>,
               fst stored)))"

text \<open>
  The request handler from the parsed sheets on. \<open>describe\<close> stands for
  \<^verbatim>\<open>describe_errors\<close>, imported from \<^verbatim>\<open>services.helpers.expense_utils\<close>, which is not
  among the sources. The column \<^verbatim>\<open>Total Shares\<close> of line 150 is read by nothing in this
  file and is left out; \<open>rnd i\<close> is the draw of the generator at the row of position
  \<open>i\<close>.
\<close>

definition batch_upload_process ::
  "(expense_row list \<Rightarrow> member list \<Rightarrow> sw_group \<Rightarrow> 'e \<times> 'm \<times> int) \<Rightarrow> (nat \<Rightarrow> nat) \<Rightarrow> int \<Rightarrow> sw_group
     \<Rightarrow> database \<Rightarrow> string list \<Rightarrow> expense_row list \<Rightarrow> member list
     \<Rightarrow> py_error + (('e, 'm) template_context \<times> database)" where
  "batch_upload_process describe rnd current_user grp db headers expenses_df members_df =
     (let cols = cols_member_names headers
      in case members_in_cols members_df cols of
           Inl e \<Rightarrow> Inl e
         | Inr mic \<Rightarrow>
             (case apply_rows (share_columns (length (group_members grp)) mic cols)
                     (concat (map (merge_payer members_df) expenses_df)) of
                Inl e \<Rightarrow> Inl e
              | Inr shared \<Rightarrow>
                  (case assign_rows rnd cols shared of
                     Inl e \<Rightarrow> Inl e
                   | Inr exps \<Rightarrow>
                       Inr (store_batch (describe exps members_df grp) current_user
                              (group_id grp) mic db exps))))"

subsection \<open>The validator\<close>

text \<open>
  Modelled from the spec: \<^verbatim>\<open>describe_errors\<close> (\<^verbatim>\<open>services.helpers.expense_utils\<close>) is
  not among the sources. The spec's Batch Validator checks, for each row: the amount is
  positive; the split type is recognised when the row is not split all equal; the owed shares
  add up to the amount within the tolerance 0.02; the payer and every member column resolve
  to a member; the currency is not empty. It returns a flag and the messages of each row, and
  the number of errors.
\<close>

datatype row_error =
  AmountNotPositive | UnknownSplitTypeError | RoundingMismatchError | UnknownPayerError
  | UnknownMemberError | MissingCurrency

definition total_share_owed :: "expense_row \<Rightarrow> rat" where
  "total_share_owed row = sum_list (map snd (share_owed row))"

definition row_errors :: "member list \<Rightarrow> expense_row \<Rightarrow> row_error list" where
  "row_errors members_df row =
     (if 0 < amount row then [] else [AmountNotPositive]) @
     (if all_equal row \<or> split_type row \<in> {''share'', ''amount'', ''equal''} then []
      else [UnknownSplitTypeError]) @
     (if \<bar>total_share_owed row - amount row\<bar> < 2 / 100 then [] else [RoundingMismatchError]) @
     (if paid_by row \<in> set (map name members_df) then [] else [UnknownPayerError]) @
     (if list_all (\<lambda>c. tl c \<in> set (map name members_df)) (map fst (cells row)) then []
      else [UnknownMemberError]) @
     (if currency row = [] then [MissingCurrency] else [])"

definition describe_errors ::
  "expense_row list \<Rightarrow> member list \<Rightarrow> sw_group \<Rightarrow> bool list \<times> row_error list list \<times> int" where
  "describe_errors exps members_df grp =
     (map (\<lambda>r. row_errors members_df r \<noteq> []) exps,
      map (row_errors members_df) exps,
      int (length (concat (map (row_errors members_df) exps))))"

subsection \<open>Reading a row, and the rows of the examples\<close>


text \<open>A row as the sheet gives it: no payer identifier and no share column yet.\<close>

definition sheet_row ::
  "rat \<Rightarrow> string \<Rightarrow> bool \<Rightarrow> string \<Rightarrow> (string \<times> rat option) list \<Rightarrow> expense_row" where
  "sheet_row a p ae st cs =
     \<lparr>row_id = ''1'', description = ''Dinner'', date = ''2024-01-01'', amount = a,
      currency = ''EUR'', paid_by = p, all_equal = ae, split_type = st, cells = cs,
      payer_id = None, share_paid = [], share_owed = []\<rparr>"

definition members_ab :: "member list" where
  "members_ab = [\<lparr>name = ''A'', ident = 1\<rparr>, \<lparr>name = ''B'', ident = 2\<rparr>]"

definition cols_ab :: "string list" where
  "cols_ab = [''_A'', ''_B'']"

definition members_abcd :: "member list" where
  "members_abcd = [\<lparr>name = ''A'', ident = 1\<rparr>, \<lparr>name = ''B'', ident = 2\<rparr>,
                   \<lparr>name = ''C'', ident = 3\<rparr>, \<lparr>name = ''D'', ident = 4\<rparr>]"

definition cols_abcd :: "string list" where
  "cols_abcd = [''_A'', ''_B'', ''_C'', ''_D'']"

text \<open>50.00 paid by A, split by percentage: 60 for A and 40 for B.\<close>

definition share_row :: expense_row where
  "share_row = sheet_row 50 ''A'' False ''share'' [(''_A'', Some 60), (''_B'', Some 40)]"

definition share_row_shared :: expense_row where
  "share_row_shared =
     share_row\<lparr>share_paid := [(''A'', 50), (''B'', 0)], share_owed := [(''A'', 30), (''B'', 20)]\<rparr>"

text \<open>100.00 paid by A, split equally among A, C and D; the cell of B is empty.\<close>

definition equal_row :: expense_row where
  "equal_row =
     sheet_row 100 ''A'' False ''equal''
       [(''_A'', Some 1), (''_B'', None), (''_C'', Some 1), (''_D'', Some 1)]"

definition equal_row_shared :: expense_row where
  "equal_row_shared =
     equal_row\<lparr>share_paid := [(''A'', 100), (''B'', 0), (''C'', 0), (''D'', 0)],
               share_owed := [(''A'', 3333 / 100), (''B'', 0), (''C'', 3333 / 100),
                              (''D'', 3333 / 100)]\<rparr>"

text \<open>50.00 paid by A with 60 for A and 40 for B, under a split type the code does not know.\<close>

definition bogus_row :: expense_row where
  "bogus_row = sheet_row 50 ''A'' False ''bogus'' [(''_A'', Some 60), (''_B'', Some 40)]"

text \<open>
  100.00 paid by A and split all equal in a group of four; the cell of B is empty, the
  split type is left blank.
\<close>

definition all_equal_row :: expense_row where
  "all_equal_row =
     sheet_row 100 ''A'' True []
       [(''_A'', Some 1), (''_B'', None), (''_C'', Some 1), (''_D'', Some 1)]"

definition all_equal_row_shared :: expense_row where
  "all_equal_row_shared =
     all_equal_row\<lparr>share_paid := [(''A'', 100), (''B'', 0), (''C'', 0), (''D'', 0)],
                   share_owed := [(''A'', 25), (''B'', 0), (''C'', 25), (''D'', 25)]\<rparr>"

text \<open>
  The members the correction draws from, with their owed shares: those whose owed share is
  above 0. \<open>positive_diff\<close> is their total less the amount.
\<close>

definition positive_shares :: "expense_row \<Rightarrow> (string \<times> rat) list" where
  "positive_shares row = filter (\<lambda>kv. 0 < snd kv) (share_owed row)"

definition positive_diff :: "expense_row \<Rightarrow> rat" where
  "positive_diff row = sum_list (map snd (positive_shares row)) - amount row"

text \<open>The owed shares with \<open>x\<close> taken from the share of member \<open>m\<close> and no other share touched.\<close>

definition subtract_from :: "string \<Rightarrow> rat \<Rightarrow> (string \<times> rat) list \<Rightarrow> (string \<times> rat) list" where
  "subtract_from m x d = map (\<lambda>kv. if fst kv = m then (fst kv, snd kv - x) else kv) d"

definition group_ab :: sw_group where
  "group_ab = \<lparr>group_id = 9, group_members = [1, 2]\<rparr>"


text \<open>The equal split of 100.00 among A, C and D after the correction, the draw being 4: C absorbs the cent.\<close>

definition equal_row_assigned :: expense_row where
  "equal_row_assigned =
     equal_row_shared\<lparr>share_owed := [(''A'', 3333 / 100), (''B'', 0), (''C'', 3334 / 100),
                                     (''D'', 3333 / 100)]\<rparr>"






text \<open>
  0.01 paid by A and split all equal in a group of four, every cell filled: each share rounds
  to 0.
\<close>

definition cent_row :: expense_row where
  "cent_row =
     sheet_row (1 / 100) ''A'' True []
       [(''_A'', Some 1), (''_B'', Some 1), (''_C'', Some 1), (''_D'', Some 1)]"

definition cent_row_shared :: expense_row where
  "cent_row_shared =
     cent_row\<lparr>share_paid := [(''A'', 1 / 100), (''B'', 0), (''C'', 0), (''D'', 0)],
              share_owed := [(''A'', 0), (''B'', 0), (''C'', 0), (''D'', 0)]\<rparr>"

text \<open>The members with a paid share other than 0 on a row, with that share.\<close>

definition nonzero_paid :: "expense_row \<Rightarrow> (string \<times> rat) list" where
  "nonzero_paid row = filter (\<lambda>kv. snd kv \<noteq> 0) (share_paid row)"


text \<open>50.00 split by percentage between A and B, paid by Zoe, who has no member column.\<close>

definition zoe_row :: expense_row where
  "zoe_row = sheet_row 50 ''Zoe'' False ''share'' [(''_A'', Some 60), (''_B'', Some 40)]"

definition zoe_row_shared :: expense_row where
  "zoe_row_shared =
     zoe_row\<lparr>share_paid := [(''A'', 0), (''B'', 0)], share_owed := [(''A'', 30), (''B'', 20)]\<rparr>"




text \<open>Two batches of one row each, uploaded by user 7 into an empty database.\<close>

definition empty_db :: database where
  "empty_db = \<lparr>uploads = [], expenses = []\<rparr>"

definition headers_ab :: "string list" where
  "headers_ab = [''ID'', ''Description'', ''Date'', ''Amount'', ''Currency'', ''Paid by'',
                 ''All equal'', ''Split type'', ''_A'', ''_B'']"

definition share_row_stored :: expense_row where
  "share_row_stored = share_row_shared\<lparr>payer_id := Some 1\<rparr>"

definition share_batch_db :: database where
  "share_batch_db =
     \<lparr>uploads = [\<lparr>upload_id = 1, creator_user_id = 7, upload_group_id = 9\<rparr>],
      expenses = [\<lparr>of_upload = 1, expense = share_row_stored, expense_members = members_ab,
                   expense_creator = 7\<rparr>]\<rparr>"

definition share_batch_context :: "(bool list, row_error list list) template_context" where
  "share_batch_context =
     \<lparr>ctx_members_in_cols = members_ab, ctx_expenses = [share_row_stored], ctx_errors = [False],
      ctx_error_messages = [[]], file_valid = True, ctx_upload_id = 1\<rparr>"

definition bogus_row_computed :: expense_row where
  "bogus_row_computed =
     bogus_row\<lparr>payer_id := Some 1, share_paid := [(''A'', 50), (''B'', 0)],
                share_owed := [(''A'', 0), (''B'', 0)]\<rparr>"

definition bogus_batch_context :: "(bool list, row_error list list) template_context" where
  "bogus_batch_context =
     \<lparr>ctx_members_in_cols = members_ab, ctx_expenses = [bogus_row_computed], ctx_errors = [True],
      ctx_error_messages = [[UnknownSplitTypeError, RoundingMismatchError]], file_valid = False,
      ctx_upload_id = 0\<rparr>"

section \<open>Properties\<close>

subsection \<open>Dictionaries\<close>

lemma getitem_Inr: "getitem d k = Inr v \<longleftrightarrow> map_of d k = Some v"
  by (simp add: getitem_def split: option.splits)

lemma map_of_setitem: "map_of (setitem d k v) = (map_of d)(k \<mapsto> v)"
  by (simp add: setitem_def update_conv')

lemma getitem_setitem: "getitem (setitem d k v) k' = (if k' = k then Inr v else getitem d k')"
  by (simp add: getitem_def map_of_setitem)

lemma keys_setitem:
  "map fst (setitem d k v) = (if k \<in> set (map fst d) then map fst d else map fst d @ [k])"
  by (simp add: setitem_def update_keys)

lemma underscore_tl: "member_col c \<Longrightarrow> ''_'' @ tl c = c"
  by (cases c) (simp_all add: member_col_def)

subsection \<open>The share calculation reads the sheet's columns only\<close>




subsection \<open>What the share columns hold\<close>

lemma share_columns_frame:
  "share_columns gs mic cols row = Inr row' \<Longrightarrow>
     row' = row\<lparr>share_paid := share_paid row', share_owed := share_owed row'\<rparr>"
proof (induction cols arbitrary: row)
  case Nil
  then show ?case by simp
next
  case (Cons c cols)
  then obtain owed where
    rec: "share_columns gs mic cols
            (row\<lparr>share_paid := setitem (share_paid row) (tl c)
                                (if paid_by row = tl c then amount row else 0),
                 share_owed := setitem (share_owed row) (tl c) owed\<rparr>) = Inr row'"
    by (auto split: sum.splits)
  from Cons.IH [OF rec] show ?case by simp
qed


lemma share_columns_paid:
  "share_columns gs mic cols row = Inr row' \<Longrightarrow>
     getitem (share_paid row') n =
       (if n \<in> tl ` set cols then Inr (if paid_by row = n then amount row else 0)
        else getitem (share_paid row) n)"
proof (induction cols arbitrary: row)
  case Nil
  then show ?case by simp
next
  case (Cons d cols)
  define row1 where "row1 owed = row\<lparr>share_paid := setitem (share_paid row) (tl d)
                                (if paid_by row = tl d then amount row else 0),
                 share_owed := setitem (share_owed row) (tl d) owed\<rparr>" for owed
  from Cons.prems(1) obtain owed where
    rec: "share_columns gs mic cols (row1 owed) = Inr row'"
    by (auto simp: row1_def split: sum.splits)
  have sp: "share_paid (row1 owed) = setitem (share_paid row) (tl d)
                                (if paid_by row = tl d then amount row else 0)"
    and pb: "paid_by (row1 owed) = paid_by row" "amount (row1 owed) = amount row"
    by (simp_all add: row1_def)
  show ?case
    unfolding Cons.IH [OF rec] sp pb getitem_setitem by auto
qed


lemma share_columns_keys:
  "share_columns gs mic cols row = Inr row' \<Longrightarrow> distinct (map tl cols) \<Longrightarrow>
   tl ` set cols \<inter> fst ` set (share_owed row) = {} \<Longrightarrow>
   tl ` set cols \<inter> fst ` set (share_paid row) = {} \<Longrightarrow>
     map fst (share_owed row') = map fst (share_owed row) @ map tl cols \<and>
     map fst (share_paid row') = map fst (share_paid row) @ map tl cols"
proof (induction cols arbitrary: row)
  case Nil
  then show ?case by simp
next
  case (Cons d cols)
  define row1 where "row1 owed = row\<lparr>share_paid := setitem (share_paid row) (tl d)
                                (if paid_by row = tl d then amount row else 0),
                 share_owed := setitem (share_owed row) (tl d) owed\<rparr>" for owed
  from Cons.prems(1) obtain owed where
    rec: "share_columns gs mic cols (row1 owed) = Inr row'"
    by (auto simp: row1_def split: sum.splits)
  have k1: "map fst (share_owed (row1 owed)) = map fst (share_owed row) @ [tl d]"
    and k2: "map fst (share_paid (row1 owed)) = map fst (share_paid row) @ [tl d]"
    using Cons.prems(3,4) by (auto simp: row1_def keys_setitem)
  have d: "distinct (map tl cols)" and nd: "tl d \<notin> tl ` set cols"
    using Cons.prems(2) by simp_all
  have s1: "fst ` set (share_owed (row1 owed)) = insert (tl d) (fst ` set (share_owed row))"
    using arg_cong [OF k1, of set] by simp
  have s2: "fst ` set (share_paid (row1 owed)) = insert (tl d) (fst ` set (share_paid row))"
    using arg_cong [OF k2, of set] by simp
  have i1: "tl ` set cols \<inter> fst ` set (share_owed (row1 owed)) = {}"
    unfolding s1 using Cons.prems(3) nd by auto
  have i2: "tl ` set cols \<inter> fst ` set (share_paid (row1 owed)) = {}"
    unfolding s2 using Cons.prems(4) nd by auto
  from Cons.IH [OF rec d i1 i2] show ?case by (simp add: k1 k2)
qed

text \<open>
  On a row of the sheet, with member columns of distinct names, the computed columns are one
  paid share and one owed share for each member column, in the order of the columns.
\<close>

lemma share_columns_sheet_keys:
  assumes "share_columns gs mic cols row = Inr row'"
    and "share_paid row = []" and "share_owed row = []" and "distinct (map tl cols)"
  shows "map fst (share_owed row') = map tl cols" and "map fst (share_paid row') = map tl cols"
  using share_columns_keys [OF assms(1,4)] assms(2,3) by simp_all

lemma member_names_distinct:
  "list_all member_col cols \<Longrightarrow> distinct cols \<Longrightarrow> distinct (map tl cols)"
proof (induction cols)
  case Nil
  then show ?case by simp
next
  case (Cons c cols)
  have "tl c \<notin> tl ` set cols"
  proof
    assume "tl c \<in> tl ` set cols"
    then obtain d where d: "d \<in> set cols" "tl d = tl c" by auto
    from Cons.prems(1) d(1) have "member_col d" "member_col c"
      by (simp_all add: list_all_iff)
    then have "''_'' @ tl d = d" "''_'' @ tl c = c"
      using underscore_tl [of d] underscore_tl [of c] by blast+
    with d(2) have "d = c" by metis
    with d(1) Cons.prems(2) show False by simp
  qed
  with Cons show ?case by simp
qed

subsection \<open>The members bound to the columns\<close>



subsection \<open>Split by percentage\<close>


lemma share_row_columns: "share_columns 2 members_ab cols_ab share_row = Inr share_row_shared"
  by code_simp


subsection \<open>Equal split among the members listed on the row\<close>





subsection \<open>A split type the code does not know\<close>

text \<open>
  Claim C2, as amended. On a row that is not split all equal and whose split type is none
  of \<^verbatim>\<open>share\<close>, \<^verbatim>\<open>amount\<close> and \<^verbatim>\<open>equal\<close>, \<^verbatim>\<open>getShareOwed\<close> raises nothing: it returns 0
  for every member column of the row, whatever the cell holds.
\<close>

theorem unknown_split_type_owed:
  assumes "\<not> all_equal row"
    and "split_type row \<notin> {''share'', ''amount'', ''equal''}"
    and "getitem (cells row) member_name = Inr cell"
  shows "getShareOwed gs mic row member_name = Inr 0"
  using assms by (cases cell) (simp_all add: getShareOwed_def)

theorem unknown_split_type_owed_witness:
  "\<not> all_equal bogus_row
   \<and> split_type bogus_row \<notin> {''share'', ''amount'', ''equal''}
   \<and> getitem (cells bogus_row) ''_B'' = Inr (Some 40)
   \<and> getShareOwed 2 members_ab bogus_row ''_B'' = Inr 0"
proof -
  have ne: "\<not> all_equal bogus_row"
    and st: "split_type bogus_row \<notin> {''share'', ''amount'', ''equal''}"
    and v: "getitem (cells bogus_row) ''_B'' = Inr (Some 40)"
    by (simp_all add: bogus_row_def sheet_row_def getitem_def)
  from unknown_split_type_owed [OF ne st v] ne st v show ?thesis by blast
qed

text \<open>
  The claim as stated asks for an error on such a row. On 50.00 with the split type
  \<^verbatim>\<open>bogus\<close> and 60 in the cell of A, the code returns the share 0.
\<close>

theorem unknown_split_type_counterexample:
  "\<not> all_equal bogus_row
   \<and> split_type bogus_row \<notin> {''share'', ''amount'', ''equal''}
   \<and> getShareOwed 2 members_ab bogus_row ''_A'' = Inr 0"
  by code_simp

subsection \<open>Split all equal with an empty cell\<close>

text \<open>
  Claim C3 at a row the code gets wrong. 100.00 is split all equal in a group of four and
  the cell of B is empty: the test for an empty cell comes first in \<^verbatim>\<open>getShareOwed\<close>, so
  B owes 0 and not 25.00, and the owed shares add up to 75.00.
\<close>

theorem all_equal_empty_cell_owed:
  "all_equal all_equal_row
   \<and> getitem (cells all_equal_row) ''_B'' = Inr None
   \<and> round2 (amount all_equal_row / of_nat 4) = 25
   \<and> getShareOwed 4 members_abcd all_equal_row ''_B'' = Inr 0
   \<and> share_columns 4 members_abcd cols_abcd all_equal_row = Inr all_equal_row_shared
   \<and> total_share_owed all_equal_row_shared = 75"
  by code_simp

subsection \<open>Rounding to two decimals\<close>



subsection \<open>The rounding correction on a row with one owed share for each member\<close>

lemma share_owed_columns_sub:
  "distinct (map fst (share_owed row)) \<Longrightarrow> set xs \<subseteq> set (share_owed row) \<Longrightarrow>
   map tl cols = map fst xs \<Longrightarrow>
   share_owed_columns cols row = Inr (map fst (filter (\<lambda>kv. 0 < snd kv) xs))"
proof (induction cols arbitrary: xs)
  case Nil
  then show ?case by simp
next
  case (Cons c cols)
  then obtain k v ys where xs: "xs = (k, v) # ys" "tl c = k" "map tl cols = map fst ys"
    by (cases xs) auto
  have kv: "map_of (share_owed row) k = Some v"
    using Cons.prems(1,2) xs(1) by simp
  have ih: "share_owed_columns cols row = Inr (map fst (filter (\<lambda>kv. 0 < snd kv) ys))"
    using Cons.IH [OF Cons.prems(1) _ xs(3)] Cons.prems(2) xs(1) by simp
  show ?case by (simp add: xs(1,2) getitem_def kv ih)
qed

lemma getitems_sub:
  "distinct (map fst d) \<Longrightarrow> set xs \<subseteq> set d \<Longrightarrow> getitems d (map fst xs) = Inr (map snd xs)"
proof (induction xs)
  case Nil
  then show ?case by simp
next
  case (Cons x xs)
  obtain k v where x: "x = (k, v)" by (cases x)
  have kv: "map_of d k = Some v" using Cons.prems x by simp
  have ih: "getitems d (map fst xs) = Inr (map snd xs)" using Cons by simp
  show ?case by (simp add: x getitem_def kv ih)
qed

lemma subtract_from_absent:
  "m \<notin> fst ` set d \<Longrightarrow> subtract_from m x d = d"
  unfolding subtract_from_def by (induction d) auto

lemma setitem_subtract:
  "distinct (map fst d) \<Longrightarrow> map_of d m = Some v \<Longrightarrow> setitem d m (v - x) = subtract_from m x d"
proof (induction d)
  case Nil
  then show ?case by simp
next
  case (Cons a d)
  obtain k w where a: "a = (k, w)" by (cases a)
  show ?case
  proof (cases "k = m")
    case True
    with Cons.prems a have w: "w = v" and nk: "m \<notin> fst ` set d" by auto
    from subtract_from_absent [OF nk, of x] show ?thesis
      using True w by (simp add: a setitem_def subtract_from_def)
  next
    case False
    with Cons a show ?thesis by (simp add: setitem_def subtract_from_def)
  qed
qed


lemma AssignRoundingDiff_unfold:
  "share_owed_columns cols row = Inr socs \<Longrightarrow> getitems (share_owed row) socs = Inr vs \<Longrightarrow>
   AssignRoundingDiff rnd cols row =
     (if 0 < \<bar>sum_list vs - amount row\<bar> \<and> \<bar>sum_list vs - amount row\<bar> < 2 / 100 then
        (case random_choice rnd socs of
           Inl e \<Rightarrow> Inl e
         | Inr m \<Rightarrow>
             (case getitem (share_owed row) m of
                Inl e \<Rightarrow> Inl e
              | Inr v \<Rightarrow>
                  Inr (row\<lparr>share_owed := setitem (share_owed row) m
                                            (v + - round2 (sum_list vs - amount row))\<rparr>)))
      else Inr row)"
  by (simp add: AssignRoundingDiff_def Let_def)

text \<open>
  The whole behaviour on such a row. When the difference is within the tolerance and no
  member owes more than 0, \<^verbatim>\<open>random.choice\<close> is given an empty list and the request ends
  with an \<^verbatim>\<open>IndexError\<close>.
\<close>

lemma AssignRoundingDiff_positive:
  assumes keys: "map fst (share_owed row) = map tl cols" and d: "distinct (map tl cols)"
  shows "AssignRoundingDiff rnd cols row =
     (if 0 < \<bar>positive_diff row\<bar> \<and> \<bar>positive_diff row\<bar> < 2 / 100 then
        (if positive_shares row = [] then Inl IndexError
         else Inr (row\<lparr>share_owed :=
                subtract_from (fst (positive_shares row ! (rnd mod length (positive_shares row))))
                  (round2 (positive_diff row)) (share_owed row)\<rparr>))
      else Inr row)"
proof -
  have dk: "distinct (map fst (share_owed row))" using keys d by simp
  have socs: "share_owed_columns cols row = Inr (map fst (positive_shares row))"
    unfolding positive_shares_def
    by (rule share_owed_columns_sub [OF dk subset_refl keys [symmetric]])
  have vs: "getitems (share_owed row) (map fst (positive_shares row))
              = Inr (map snd (positive_shares row))"
    by (rule getitems_sub [OF dk]) (auto simp: positive_shares_def)
  have pd: "sum_list (map snd (positive_shares row)) - amount row = positive_diff row"
    by (simp add: positive_diff_def)
  note unf = AssignRoundingDiff_unfold [OF socs vs, of rnd, unfolded pd]
  show ?thesis
  proof (cases "positive_shares row = []")
    case True
    then show ?thesis unfolding unf by (simp add: random_choice_def)
  next
    case ne: False
    define i where "i = rnd mod length (positive_shares row)"
    have i: "i < length (positive_shares row)" using ne by (simp add: i_def)
    obtain m v where mv: "positive_shares row ! i = (m, v)" by (cases "positive_shares row ! i")
    have "(m, v) \<in> set (positive_shares row)" using i mv by (metis nth_mem)
    then have mem: "(m, v) \<in> set (share_owed row)" by (simp add: positive_shares_def)
    then have look: "map_of (share_owed row) m = Some v" using dk by simp
    have rc: "random_choice rnd (map fst (positive_shares row)) = Inr m"
      using ne i mv by (simp add: random_choice_def i_def [symmetric])
    have gi: "getitem (share_owed row) m = Inr v" by (simp add: getitem_def look)
    have fm: "fst (positive_shares row ! (rnd mod length (positive_shares row))) = m"
      using mv by (simp add: i_def)
    show ?thesis
      unfolding unf fm using ne by (simp add: rc gi setitem_subtract [OF dk look])
  qed
qed

lemma cent_row_columns: "share_columns 4 members_abcd cols_abcd cent_row = Inr cent_row_shared"
  by code_simp

lemma cent_row_index_error: "AssignRoundingDiff rnd cols_abcd cent_row_shared = Inl IndexError"
proof -
  have keys: "map fst (share_owed cent_row_shared) = map tl cols_abcd" by code_simp
  have d: "distinct (map tl cols_abcd)" by code_simp
  have ps: "positive_shares cent_row_shared = []" by code_simp
  have pd: "positive_diff cent_row_shared = - 1 / 100" by code_simp
  show ?thesis unfolding AssignRoundingDiff_positive [OF keys d] ps pd by simp
qed




subsection \<open>The sum of the owed shares after the correction\<close>


lemma describe_errors_count:
  "(snd (snd (describe_errors exps members_df grp)) = 0)
     = (\<forall>r\<in>set exps. row_errors members_df r = [])"
  by (auto simp: describe_errors_def)


lemma equal_row_assign:
  "AssignRoundingDiff 4 cols_abcd equal_row_shared = Inr equal_row_assigned"
  by code_simp



subsection \<open>What the correction leaves alone\<close>

lemma random_choice_mem: "random_choice rnd xs = Inr m \<Longrightarrow> m \<in> set xs"
  by (auto simp: random_choice_def split: if_splits)

lemma share_owed_columns_above_zero:
  "share_owed_columns cols row = Inr socs \<Longrightarrow> m \<in> set socs \<Longrightarrow>
     \<exists>v. getitem (share_owed row) m = Inr v \<and> 0 < v"
proof (induction cols arbitrary: socs)
  case Nil
  then show ?case by simp
next
  case (Cons c cols)
  from Cons.prems(1) obtain v cs where
    v: "getitem (share_owed row) (tl c) = Inr v" and
    cs: "share_owed_columns cols row = Inr cs" and
    socs: "socs = (if 0 < v then tl c # cs else cs)"
    by (auto split: sum.splits)
  show ?case
  proof (cases "m \<in> set cs")
    case True
    from Cons.IH [OF cs True] show ?thesis .
  next
    case False
    with Cons.prems(2) socs have "m = tl c" "0 < v" by (auto split: if_splits)
    with v show ?thesis by blast
  qed
qed

lemma AssignRoundingDiff_Inr:
  assumes "AssignRoundingDiff rnd cols row = Inr row'"
  shows "row' = row \<or>
         (\<exists>socs m v x. share_owed_columns cols row = Inr socs \<and> random_choice rnd socs = Inr m
             \<and> getitem (share_owed row) m = Inr v
             \<and> row' = row\<lparr>share_owed := setitem (share_owed row) m x\<rparr>)"
  using assms unfolding AssignRoundingDiff_def Let_def
  by (auto split: sum.splits if_splits)

text \<open>
  Claim C10. When the correction returns a row, the row is the one it was given but for the
  owed shares; the owed shares keep their columns and differ under at most one member; a
  member whose owed share differs, and any member the draw picks, owed more than 0 before.
\<close>

theorem rounding_diff_frame:
  assumes rec: "AssignRoundingDiff rnd cols row = Inr row'"
  shows "row' = row\<lparr>share_owed := share_owed row'\<rparr>
       \<and> share_paid row' = share_paid row \<and> amount row' = amount row
       \<and> map fst (share_owed row') = map fst (share_owed row)
       \<and> (\<exists>m. \<forall>k. k \<noteq> m \<longrightarrow> getitem (share_owed row') k = getitem (share_owed row) k)
       \<and> (\<forall>k. getitem (share_owed row') k \<noteq> getitem (share_owed row) k
              \<longrightarrow> (\<exists>v. getitem (share_owed row) k = Inr v \<and> 0 < v))
       \<and> (\<forall>socs m. share_owed_columns cols row = Inr socs \<longrightarrow> random_choice rnd socs = Inr m
              \<longrightarrow> (\<exists>v. getitem (share_owed row) m = Inr v \<and> 0 < v))"
proof -
  have chosen: "\<forall>socs m. share_owed_columns cols row = Inr socs \<longrightarrow> random_choice rnd socs = Inr m
              \<longrightarrow> (\<exists>v. getitem (share_owed row) m = Inr v \<and> 0 < v)"
  proof (intro allI impI)
    fix socs m
    assume "share_owed_columns cols row = Inr socs" and "random_choice rnd socs = Inr m"
    then show "\<exists>v. getitem (share_owed row) m = Inr v \<and> 0 < v"
      by (intro share_owed_columns_above_zero [of cols row socs m] random_choice_mem)
  qed
  from AssignRoundingDiff_Inr [OF rec] show ?thesis
  proof
    assume "row' = row"
    with chosen show ?thesis by simp
  next
    assume "\<exists>socs m v x. share_owed_columns cols row = Inr socs \<and> random_choice rnd socs = Inr m
             \<and> getitem (share_owed row) m = Inr v
             \<and> row' = row\<lparr>share_owed := setitem (share_owed row) m x\<rparr>"
    then obtain socs m v x where
      socs: "share_owed_columns cols row = Inr socs" and m: "random_choice rnd socs = Inr m" and
      v: "getitem (share_owed row) m = Inr v" and
      r': "row' = row\<lparr>share_owed := setitem (share_owed row) m x\<rparr>"
      by blast
    from chosen socs m have pos: "\<exists>v. getitem (share_owed row) m = Inr v \<and> 0 < v" by blast
    from v have "map_of (share_owed row) m = Some v" by (simp add: getitem_Inr)
    then have "m \<in> fst ` set (share_owed row)"
      by (metis map_of_eq_None_iff option.distinct(1))
    then have k: "map fst (share_owed row') = map fst (share_owed row)"
      by (simp add: r' keys_setitem)
    have g: "getitem (share_owed row') k = (if k = m then Inr x else getitem (share_owed row) k)"
      for k by (simp add: r' getitem_setitem)
    have one: "\<exists>m. \<forall>k. k \<noteq> m \<longrightarrow> getitem (share_owed row') k = getitem (share_owed row) k"
      using g by auto
    have diff: "\<forall>k. getitem (share_owed row') k \<noteq> getitem (share_owed row) k
              \<longrightarrow> (\<exists>v. getitem (share_owed row) k = Inr v \<and> 0 < v)"
      using g pos by auto
    have fr: "row' = row\<lparr>share_owed := share_owed row'\<rparr>"
      "share_paid row' = share_paid row" "amount row' = amount row"
      by (simp_all add: r')
    show ?thesis using fr k one diff chosen by blast
  qed
qed

theorem rounding_diff_frame_witness:
  "AssignRoundingDiff 4 cols_abcd equal_row_shared = Inr equal_row_assigned
   \<and> equal_row_assigned = equal_row_shared\<lparr>share_owed := share_owed equal_row_assigned\<rparr>
   \<and> share_paid equal_row_assigned = share_paid equal_row_shared
   \<and> amount equal_row_assigned = amount equal_row_shared
   \<and> map fst (share_owed equal_row_assigned) = map fst (share_owed equal_row_shared)
   \<and> getitem (share_owed equal_row_shared) ''C'' = Inr (3333 / 100)
   \<and> getitem (share_owed equal_row_assigned) ''C'' = Inr (3334 / 100)"
proof -
  have c: "getitem (share_owed equal_row_shared) ''C'' = Inr (3333 / 100)"
    "getitem (share_owed equal_row_assigned) ''C'' = Inr (3334 / 100)"
    by code_simp+
  from rounding_diff_frame [OF equal_row_assign] equal_row_assign c show ?thesis by blast
qed

subsection \<open>The paid shares\<close>

lemma alist_determined:
  "distinct (map fst d) \<Longrightarrow> (\<forall>k\<in>set (map fst d). map_of d k = Some (f k)) \<Longrightarrow>
     d = map (\<lambda>k. (k, f k)) (map fst d)"
proof (induction d)
  case Nil
  then show ?case by simp
next
  case (Cons a d)
  obtain k v where a: "a = (k, v)" by (cases a)
  from Cons.prems a have v: "v = f k" by simp
  have "\<forall>k'\<in>set (map fst d). map_of d k' = Some (f k')"
  proof
    fix k' assume k': "k' \<in> set (map fst d)"
    with Cons.prems(1) a have "k' \<noteq> k" by auto
    with Cons.prems(2) k' a show "map_of d k' = Some (f k')" by auto
  qed
  with Cons a v show ?case by simp
qed

lemma filter_single_payer:
  "distinct ks \<Longrightarrow> p \<in> set ks \<Longrightarrow> a \<noteq> 0 \<Longrightarrow>
     filter (\<lambda>kv. snd kv \<noteq> 0) (map (\<lambda>k. (k, if p = k then a else (0::rat))) ks) = [(p, a)]"
proof (induction ks)
  case Nil
  then show ?case by simp
next
  case (Cons k ks)
  show ?case
  proof (cases "p = k")
    case True
    with Cons.prems have "p \<notin> set ks" by simp
    then have "filter (\<lambda>kv. snd kv \<noteq> 0) (map (\<lambda>k. (k, if p = k then a else (0::rat))) ks) = []"
      by (induction ks) auto
    with True Cons.prems(3) show ?thesis by simp
  next
    case False
    with Cons show ?thesis by simp
  qed
qed

lemma filter_no_payer:
  "p \<notin> set ks \<or> a = 0 \<Longrightarrow>
     filter (\<lambda>kv. snd kv \<noteq> 0) (map (\<lambda>k. (k, if p = k then a else (0::rat))) ks) = []"
  by (induction ks) auto

text \<open>
  Claim C5, as amended. On a row of the sheet, with member columns of distinct names, the
  paid share of each member is the amount when the member's name is the row's
  \<^verbatim>\<open>Paid by\<close> and 0 otherwise. So exactly one member has a paid share other than 0, the
  payer with the amount, when the payer has a member column and the amount is not 0; and no
  member has one when the payer has no member column or the amount is 0.
\<close>

theorem single_payer_share_paid:
  assumes sc: "share_columns gs mic cols row = Inr row'"
    and raw: "share_paid row = []" "share_owed row = []" and d: "distinct (map tl cols)"
  shows "share_paid row' = map (\<lambda>c. (tl c, if paid_by row = tl c then amount row else 0)) cols
       \<and> (paid_by row \<in> tl ` set cols \<and> amount row \<noteq> 0
            \<longrightarrow> nonzero_paid row' = [(paid_by row, amount row)])
       \<and> (paid_by row \<notin> tl ` set cols \<or> amount row = 0 \<longrightarrow> nonzero_paid row' = [])"
proof -
  have keys: "map fst (share_paid row') = map tl cols"
    using share_columns_keys [OF sc d] raw by simp
  have look: "\<forall>k\<in>set (map fst (share_paid row')).
      map_of (share_paid row') k = Some (if paid_by row = k then amount row else 0)"
  proof
    fix k assume "k \<in> set (map fst (share_paid row'))"
    then have "k \<in> tl ` set cols" unfolding keys by simp
    with share_columns_paid [OF sc, of k] show
      "map_of (share_paid row') k = Some (if paid_by row = k then amount row else 0)"
      by (simp add: getitem_Inr)
  qed
  have dk: "distinct (map fst (share_paid row'))" unfolding keys by (rule d)
  have sp: "share_paid row' =
      map (\<lambda>k. (k, if paid_by row = k then amount row else 0)) (map tl cols)"
    using alist_determined [OF dk look] unfolding keys .
  then have sp': "share_paid row' =
      map (\<lambda>c. (tl c, if paid_by row = tl c then amount row else 0)) cols"
    by (simp add: comp_def)
  have one: "paid_by row \<in> tl ` set cols \<and> amount row \<noteq> 0
            \<longrightarrow> nonzero_paid row' = [(paid_by row, amount row)]"
    unfolding nonzero_paid_def sp using filter_single_payer [OF d, of "paid_by row" "amount row"]
    by simp
  have none: "paid_by row \<notin> tl ` set cols \<or> amount row = 0 \<longrightarrow> nonzero_paid row' = []"
    unfolding nonzero_paid_def sp
    using filter_no_payer [of "paid_by row" "map tl cols" "amount row"] by simp
  show ?thesis using sp' one none by blast
qed

theorem single_payer_share_paid_witness:
  "share_columns 2 members_ab cols_ab share_row = Inr share_row_shared
   \<and> share_paid share_row = [] \<and> share_owed share_row = [] \<and> distinct (map tl cols_ab)
   \<and> paid_by share_row \<in> tl ` set cols_ab \<and> amount share_row \<noteq> 0
   \<and> nonzero_paid share_row_shared = [(''A'', 50)]"
proof -
  have raw: "share_paid share_row = []" "share_owed share_row = []"
    by (simp_all add: share_row_def sheet_row_def)
  have d: "distinct (map tl cols_ab)" by code_simp
  have p: "paid_by share_row = ''A''" "amount share_row = 50"
    by (simp_all add: share_row_def sheet_row_def)
  have pm: "paid_by share_row \<in> tl ` set cols_ab" by (simp add: p cols_ab_def)
  have am: "amount share_row \<noteq> 0" by (simp add: p)
  from single_payer_share_paid [OF share_row_columns raw d] pm am
  have "nonzero_paid share_row_shared = [(paid_by share_row, amount share_row)]" by blast
  then have "nonzero_paid share_row_shared = [(''A'', 50)]" by (simp add: p)
  then show ?thesis using share_row_columns raw d pm am by blast
qed

text \<open>
  The claim as stated gives every row exactly one member with a paid share other than 0. On
  a row paid by Zoe, who has no member column, every paid share is 0.
\<close>

theorem single_payer_counterexample:
  "share_columns 2 members_ab cols_ab zoe_row = Inr zoe_row_shared
   \<and> share_paid zoe_row_shared = [(''A'', 0), (''B'', 0)]
   \<and> nonzero_paid zoe_row_shared = []"
  by code_simp

subsection \<open>Member names that repeat in the Members sheet\<close>








subsection \<open>Storing the batch\<close>

lemma create_expenses_fold:
  "foldl (\<lambda>d ex. create_expense d uid ex mic u) db exps =
     db\<lparr>expenses := expenses db @
          map (\<lambda>ex. \<lparr>of_upload = uid, expense = ex, expense_members = mic, expense_creator = u\<rparr>)
            exps\<rparr>"
  by (induction exps arbitrary: db) (simp_all add: create_expense_def)

lemma store_batch_result:
  assumes "store_batch (errors, msgs, error_count) u gid mic db exps = (ctx, db')"
  shows "file_valid ctx = (error_count = 0) \<and> ctx_expenses ctx = exps
       \<and> ((db' \<noteq> db) = (error_count = 0))
       \<and> (error_count = 0 \<longrightarrow> map expense (expenses db') = map expense (expenses db) @ exps
             \<and> length (uploads db') = Suc (length (uploads db)))
       \<and> (error_count \<noteq> 0 \<longrightarrow> db' = db)"
proof (cases "error_count = 0")
  case True
  with assms have db': "db' = (db\<lparr>uploads := uploads db @
         [\<lparr>upload_id = Suc (length (uploads db)), creator_user_id = u, upload_group_id = gid\<rparr>]\<rparr>)
       \<lparr>expenses := expenses db @
          map (\<lambda>ex. \<lparr>of_upload = Suc (length (uploads db)), expense = ex, expense_members = mic,
                      expense_creator = u\<rparr>) exps\<rparr>"
    and ctx: "file_valid ctx" "ctx_expenses ctx = exps"
    by (auto simp: store_batch_def create_upload_def Let_def create_expenses_fold)
  have "length (uploads db') \<noteq> length (uploads db)" by (simp add: db')
  then have "db' \<noteq> db" by auto
  then show ?thesis using True ctx by (simp add: db' comp_def)
next
  case False
  with assms show ?thesis by (auto simp: store_batch_def)
qed

lemma batch_upload_process_store:
  assumes "batch_upload_process describe rnd u grp db headers expenses_df members_df
             = Inr (ctx, db')"
  obtains mic exps where
    "store_batch (describe exps members_df grp) u (group_id grp) mic db exps = (ctx, db')"
  using assms unfolding batch_upload_process_def Let_def
  by (auto split: sum.splits)

text \<open>
  Claim C7. Whatever \<^verbatim>\<open>describe_errors\<close> is: when the request returns, \<^verbatim>\<open>file_valid\<close> is
  true exactly when the error count is 0, the database differs from the one before exactly
  when the error count is 0, with an error count of 0 every row of the batch is stored, in
  order, and with any other count nothing is stored. If the count is 0 exactly when no row
  has an error, as with the validator of the spec, then one row with an error leaves the
  batch invalid and the database as it was.
\<close>

theorem batch_committed_iff_no_error:
  assumes run: "batch_upload_process describe rnd u grp db headers expenses_df members_df
                  = Inr (ctx, db')"
  shows "file_valid ctx = (snd (snd (describe (ctx_expenses ctx) members_df grp)) = 0)
       \<and> ((db' \<noteq> db) = (snd (snd (describe (ctx_expenses ctx) members_df grp)) = 0))
       \<and> (snd (snd (describe (ctx_expenses ctx) members_df grp)) = 0
            \<longrightarrow> map expense (expenses db') = map expense (expenses db) @ ctx_expenses ctx)
       \<and> (snd (snd (describe (ctx_expenses ctx) members_df grp)) \<noteq> 0 \<longrightarrow> db' = db)
       \<and> ((\<forall>exps. (snd (snd (describe exps members_df grp)) = 0) = (\<forall>r\<in>set exps. row_ok r))
            \<longrightarrow> (\<exists>r\<in>set (ctx_expenses ctx). \<not> row_ok r)
            \<longrightarrow> \<not> file_valid ctx \<and> db' = db)"
proof -
  from run obtain mic exps where
    st: "store_batch (describe exps members_df grp) u (group_id grp) mic db exps = (ctx, db')"
    by (rule batch_upload_process_store)
  obtain errors msgs error_count where
    d: "describe exps members_df grp = (errors, msgs, error_count)"
    by (cases "describe exps members_df grp") auto
  from store_batch_result [OF st [unfolded d]]
  have r: "file_valid ctx = (error_count = 0)" "ctx_expenses ctx = exps"
    "(db' \<noteq> db) = (error_count = 0)"
    "error_count = 0 \<longrightarrow> map expense (expenses db') = map expense (expenses db) @ exps"
    "error_count \<noteq> 0 \<longrightarrow> db' = db"
    by simp_all
  have c: "snd (snd (describe (ctx_expenses ctx) members_df grp)) = error_count"
    by (simp add: r(2) d)
  have last: "(\<forall>exps. (snd (snd (describe exps members_df grp)) = 0) = (\<forall>r\<in>set exps. row_ok r))
            \<longrightarrow> (\<exists>r\<in>set (ctx_expenses ctx). \<not> row_ok r)
            \<longrightarrow> \<not> file_valid ctx \<and> db' = db"
  proof (intro impI)
    assume cnt: "\<forall>exps. (snd (snd (describe exps members_df grp)) = 0) = (\<forall>r\<in>set exps. row_ok r)"
      and bad: "\<exists>r\<in>set (ctx_expenses ctx). \<not> row_ok r"
    from cnt have "(error_count = 0) = (\<forall>r\<in>set exps. row_ok r)"
      using d by (metis snd_conv)
    with bad r(2) have "error_count \<noteq> 0" by auto
    with r(1,5) show "\<not> file_valid ctx \<and> db' = db" by simp
  qed
  have first: "file_valid ctx = (error_count = 0)" "(db' \<noteq> db) = (error_count = 0)"
    "error_count = 0 \<longrightarrow> map expense (expenses db') = map expense (expenses db) @ ctx_expenses ctx"
    "error_count \<noteq> 0 \<longrightarrow> db' = db"
    using r by simp_all
  show ?thesis unfolding c using first last by blast
qed

lemma share_batch_run:
  "batch_upload_process describe_errors (\<lambda>i. 0) 7 group_ab empty_db headers_ab [share_row]
     members_ab = Inr (share_batch_context, share_batch_db)"
  by code_simp

lemma bogus_batch_run:
  "batch_upload_process describe_errors (\<lambda>i. 0) 7 group_ab empty_db headers_ab [bogus_row]
     members_ab = Inr (bogus_batch_context, empty_db)"
  by code_simp

theorem batch_committed_iff_no_error_witness:
  "batch_upload_process describe_errors (\<lambda>i. 0) 7 group_ab empty_db headers_ab [share_row]
     members_ab = Inr (share_batch_context, share_batch_db)
   \<and> snd (snd (describe_errors (ctx_expenses share_batch_context) members_ab group_ab)) = 0
   \<and> file_valid share_batch_context \<and> share_batch_db \<noteq> empty_db
   \<and> map expense (expenses share_batch_db) = ctx_expenses share_batch_context
   \<and> batch_upload_process describe_errors (\<lambda>i. 0) 7 group_ab empty_db headers_ab [bogus_row]
        members_ab = Inr (bogus_batch_context, empty_db)
   \<and> bogus_row_computed \<in> set (ctx_expenses bogus_batch_context)
   \<and> row_errors members_ab bogus_row_computed \<noteq> []
   \<and> \<not> file_valid bogus_batch_context"
proof -
  have c0: "snd (snd (describe_errors (ctx_expenses share_batch_context) members_ab group_ab)) = 0"
    by code_simp
  have e: "expenses empty_db = []" by (simp add: empty_db_def)
  from batch_committed_iff_no_error [OF share_batch_run] c0 e
  have ok: "file_valid share_batch_context" "share_batch_db \<noteq> empty_db"
    "map expense (expenses share_batch_db) = ctx_expenses share_batch_context"
    by simp_all
  have m: "bogus_row_computed \<in> set (ctx_expenses bogus_batch_context)"
    by (simp add: bogus_batch_context_def)
  have b: "row_errors members_ab bogus_row_computed \<noteq> []" by code_simp
  have cnt: "\<forall>exps. (snd (snd (describe_errors exps members_ab group_ab)) = 0)
               = (\<forall>r\<in>set exps. row_errors members_ab r = [])"
    by (simp add: describe_errors_count)
  from batch_committed_iff_no_error
         [OF bogus_batch_run, of "\<lambda>r. row_errors members_ab r = []"] cnt m b
  have bad: "\<not> file_valid bogus_batch_context" by blast
  show ?thesis using share_batch_run c0 ok bogus_batch_run m b bad by blast
qed

end
